theory Spec2Isabelle
  imports Main "HOL-Library.Word"
begin

section \<open>Data model of the waiting list (src/src/waitlist.cpp)\<close>

text \<open>
  \<^verbatim>\<open>struct Wait\<close> (lines 32-39). The model is that of a 64-bit target:
  \<^verbatim>\<open>std::size_t\<close> is an unsigned 64-bit integer, so \<open>timeout\<close> is a \<open>64 word\<close>;
  \<^verbatim>\<open>uint32_t playerGUID\<close> is a \<open>32 word\<close>.
\<close>

record Wait =
  timeout :: "64 word"
  playerGUID :: "32 word"

text \<open>
  \<^verbatim>\<open>WaitList::iterator\<close>. An iterator of a \<^verbatim>\<open>std::list\<close> refers to one node, or
  is the past-the-end iterator. The list is modelled by the sequence of its nodes, and an
  iterator to a node by the position the node has in that sequence: \<open>Node i\<close>. \<open>End\<close>
  is \<^verbatim>\<open>end()\<close>, which stays \<^verbatim>\<open>end()\<close> whatever is inserted or erased. \<open>Dangling\<close>
  is an iterator whose node has been erased: it may be stored, and using it is undefined.
\<close>

datatype iterator = End | Node nat | Dangling

text \<open>\<^verbatim>\<open>struct WaitListInfo\<close> (lines 51-54).\<close>

record WaitListInfo =
  waitList :: "Wait list"
  priorityEnd :: iterator

text \<open>
  What \<^verbatim>\<open>clientLogin\<close> reads of \<^verbatim>\<open>const Player*\<close>: \<^verbatim>\<open>hasFlag(PlayerFlag_CanAlwaysLogin)\<close>,
  \<^verbatim>\<open>getAccountType()\<close>, \<^verbatim>\<open>isPremium()\<close> and \<^verbatim>\<open>getGUID()\<close>.
\<close>

record Player =
  hasFlag_CanAlwaysLogin :: bool
  getAccountType :: nat
  isPremium :: bool
  getGUID :: "32 word"

text \<open>
  What \<^verbatim>\<open>clientLogin\<close> reads of its surroundings, whose declarations are not part of the
  sources at hand and are therefore parameters: \<open>MAX_PLAYERS\<close> is
  \<^verbatim>\<open>static_cast<uint32_t>(g_config.getNumber(ConfigManager::MAX_PLAYERS))\<close>,
  \<open>getPlayersOnline\<close> is \<^verbatim>\<open>g_game.getPlayersOnline()\<close>, \<open>OTSYS_TIME\<close> is the
  \<^verbatim>\<open>int64_t\<close> value of the clock in two's complement, and \<open>ACCOUNT_TYPE_GAMEMASTER\<close>
  is the enumerator of that name.

  \<^verbatim>\<open>getPlayersOnline()\<close> is a \<^verbatim>\<open>std::size_t\<close>, a \<open>64 word\<close>. Where it meets
  \<^verbatim>\<open>maxPlayers\<close> (lines 95 and 113) the \<^verbatim>\<open>uint32_t\<close> is widened to that type, and the
  sum of line 113 is taken in it and wraps. The time stamps are words as well, since
  line 103 depends on their wrap-around. A slot is kept as the natural number that counts
  the nodes passed, and enters line 113 as the \<^verbatim>\<open>std::size_t\<close> of that value.
\<close>

record Env =
  MAX_PLAYERS :: "32 word"
  getPlayersOnline :: "64 word"
  OTSYS_TIME :: "64 word"
  ACCOUNT_TYPE_GAMEMASTER :: nat

datatype error = UndefinedBehaviour

text \<open>\<^verbatim>\<open>WaitingList::WaitingList() : info(new WaitListInfo)\<close> (line 144, with the default
  member initialiser of line 54).\<close>

definition WaitingList :: WaitListInfo where
  "WaitingList = \<lparr>waitList = [], priorityEnd = End\<rparr>"

section \<open>Timeout policy\<close>

text \<open>\<^verbatim>\<open>WaitingList::getTime\<close> (lines 73-86).\<close>

definition getTime :: "nat \<Rightarrow> nat" where
  "getTime slot =
     (if slot < 5 then 5
      else if slot < 10 then 10
      else if slot < 20 then 20
      else if slot < 50 then 60
      else 120)"

text \<open>\<^verbatim>\<open>getTimeout\<close> (lines 43-47).\<close>

definition getTimeout :: "nat \<Rightarrow> nat" where
  "getTimeout slot = getTime slot + 15"

section \<open>Lookup\<close>

text \<open>
  \<^verbatim>\<open>WaitListInfo::findClient\<close> (lines 56-64). The loop runs over the nodes from
  \<^verbatim>\<open>it\<close> to the end: the second argument is that range, \<open>pos\<close> is the position of
  \<^verbatim>\<open>it\<close>, and \<open>slot\<close> the counter of the source.
\<close>

fun findClient_loop :: "32 word \<Rightarrow> Wait list \<Rightarrow> nat \<Rightarrow> nat \<Rightarrow> iterator \<times> nat" where
  "findClient_loop guid [] pos slot = (End, slot)"
| "findClient_loop guid (w # ws) pos slot =
     (if playerGUID w = guid then (Node pos, slot)
      else findClient_loop guid ws (Suc pos) (Suc slot))"

definition findClient :: "WaitListInfo \<Rightarrow> Player \<Rightarrow> iterator \<times> nat" where
  "findClient info player = findClient_loop (getGUID player) (waitList info) 0 1"

text \<open>
  \<^verbatim>\<open>WaitingList::getClientSlot\<close> (lines 133-142). It is a member function working on
  \<^verbatim>\<open>info\<close>, so the model returns the state it leaves together with the slot.
\<close>

definition getClientSlot :: "Player \<Rightarrow> WaitListInfo \<Rightarrow> nat \<times> WaitListInfo" where
  "getClientSlot player info =
     (let (it, slot) = findClient info player
      in if it = End then (0, info) else (slot, info))"

section \<open>Erasing and inserting nodes\<close>

text \<open>
  \<^verbatim>\<open>std::list::erase\<close> of the node at position \<open>i\<close>, seen from another iterator:
  an iterator to a node further back now finds its node one position earlier, an iterator
  to the erased node dangles, every other iterator is untouched.
\<close>

definition erase_iterator :: "nat \<Rightarrow> iterator \<Rightarrow> iterator" where
  "erase_iterator i other =
     (case other of
        End \<Rightarrow> End
      | Dangling \<Rightarrow> Dangling
      | Node j \<Rightarrow> if i < j then Node (j - 1) else if i = j then Dangling else Node j)"

text \<open>\<^verbatim>\<open>info->waitList.erase(it)\<close> for \<^verbatim>\<open>it\<close> at position \<open>i\<close> (lines 104 and 115).
  The source does nothing about \<^verbatim>\<open>priorityEnd\<close> there, so it follows its node.\<close>

definition erase :: "nat \<Rightarrow> WaitListInfo \<Rightarrow> WaitListInfo" where
  "erase i info =
     \<lparr>waitList = take i (waitList info) @ drop (Suc i) (waitList info),
      priorityEnd = erase_iterator i (priorityEnd info)\<rparr>"

text \<open>
  The purge loop of \<^verbatim>\<open>clientLogin\<close> (lines 101-108), \<^verbatim>\<open>it\<close> at position \<open>i\<close>.
  \<^verbatim>\<open>it->timeout\<close> is a \<^verbatim>\<open>std::size_t\<close> and \<^verbatim>\<open>time\<close> an \<^verbatim>\<open>int64_t\<close>: the usual
  arithmetic conversions turn \<^verbatim>\<open>time\<close> into the unsigned type, the difference is
  unsigned and wraps, and it is compared with \<open>0\<close> as an unsigned number.
  \<^verbatim>\<open>erase\<close> returns the iterator to the node after the erased one, which is at
  position \<open>i\<close> again.
\<close>

function purge_loop :: "64 word \<Rightarrow> nat \<Rightarrow> WaitListInfo \<Rightarrow> WaitListInfo" where
  "purge_loop time i info =
     (if i < length (waitList info) then
        (if timeout (waitList info ! i) - time \<le> 0
         then purge_loop time i (erase i info)
         else purge_loop time (Suc i) info)
      else info)"
  by pat_completeness auto
termination
  by (relation "measure (\<lambda>(time, i, info). length (waitList info) - i)")
     (auto simp: erase_def)

text \<open>\<^verbatim>\<open>std::distance(info->waitList.begin(), it)\<close>; undefined for a dangling iterator.\<close>

definition distance_begin :: "WaitListInfo \<Rightarrow> iterator \<Rightarrow> error + nat" where
  "distance_begin info it =
     (case it of
        End \<Rightarrow> Inr (length (waitList info))
      | Node i \<Rightarrow> Inr i
      | Dangling \<Rightarrow> Inl UndefinedBehaviour)"

text \<open>\<^verbatim>\<open>waitList.emplace(pos, ...)\<close> with \<^verbatim>\<open>pos\<close> at distance \<open>i\<close> from the beginning:
  the new node comes before the node at \<^verbatim>\<open>pos\<close>.\<close>

definition emplace :: "nat \<Rightarrow> Wait \<Rightarrow> Wait list \<Rightarrow> Wait list" where
  "emplace i w ws = take i ws @ w # drop i ws"

section \<open>Admission\<close>

text \<open>
  \<^verbatim>\<open>WaitingList::clientLogin\<close> (lines 88-131). The result is the returned boolean and the
  state left behind, or \<open>Inl UndefinedBehaviour\<close> where the source uses an iterator whose
  node is gone. \<^verbatim>\<open>time + (getTimeout(slot) * 1000)\<close> is computed in the unsigned 64-bit
  type and stored in \<^verbatim>\<open>timeout\<close>. Line 126 assigns to \<^verbatim>\<open>priorityEnd\<close> the result of
  \<^verbatim>\<open>emplace\<close>, which is the iterator to the node just created.
\<close>

definition clientLogin :: "Env \<Rightarrow> Player \<Rightarrow> WaitListInfo \<Rightarrow> error + (bool \<times> WaitListInfo)" where
  "clientLogin env player info =
     (if hasFlag_CanAlwaysLogin player \<or> getAccountType player \<ge> ACCOUNT_TYPE_GAMEMASTER env
      then Inr (True, info)
      else
        let maxPlayers = MAX_PLAYERS env in
        if maxPlayers = 0 \<or> (waitList info = [] \<and> getPlayersOnline env < ucast maxPlayers)
        then Inr (True, info)
        else
          let time = OTSYS_TIME env;
              info1 = purge_loop time 0 info;
              (it, slot) = findClient info1 player
          in case it of
               Node i \<Rightarrow>
                 if getPlayersOnline env + of_nat slot \<le> ucast maxPlayers
                 then Inr (True, erase i info1)
                 else Inr (False, info1\<lparr>waitList := (waitList info1)
                        [i := (waitList info1 ! i)
                           \<lparr>timeout := time + of_nat (getTimeout slot * 1000)\<rparr>]\<rparr>)
             | Dangling \<Rightarrow> Inl UndefinedBehaviour
             | End \<Rightarrow>
                 if isPremium player then
                   (case distance_begin info1 (priorityEnd info1) of
                      Inl e \<Rightarrow> Inl e
                    | Inr slot \<Rightarrow>
                        Inr (False,
                          \<lparr>waitList = emplace slot
                             \<lparr>timeout = time + of_nat (getTimeout (slot + 1) * 1000),
                              playerGUID = getGUID player\<rparr> (waitList info1),
                           priorityEnd = Node slot\<rparr>))
                 else
                   Inr (False, info1\<lparr>waitList := waitList info1 @
                     [\<lparr>timeout = time + of_nat (getTimeout (length (waitList info1) + 1) * 1000),
                       playerGUID = getGUID player\<rparr>]\<rparr>))"

text \<open>
  The states of the waiting list that the program can be in: the one the constructor
  builds, and every state a returning call of \<^verbatim>\<open>clientLogin\<close> leaves, for any player
  and any time, number of players online and configuration (\<^verbatim>\<open>getClientSlot\<close> changes
  nothing).
\<close>

inductive reachable :: "WaitListInfo \<Rightarrow> bool" where
  reachable_init: "reachable WaitingList"
| reachable_step:
    "reachable info \<Longrightarrow> clientLogin env player info = Inr (admit, info') \<Longrightarrow> reachable info'"

declare purge_loop.simps [simp del]

text \<open>The state after the purge loop of a call that reaches it.\<close>

abbreviation purged :: "Env \<Rightarrow> WaitListInfo \<Rightarrow> WaitListInfo" where
  "purged env info \<equiv> purge_loop (OTSYS_TIME env) 0 info"

section \<open>Notions used in the statements\<close>

text \<open>The identifiers of the players in the waiting list, from the front.\<close>

definition guids :: "WaitListInfo \<Rightarrow> 32 word list" where
  "guids info = map playerGUID (waitList info)"

text \<open>The conditions of lines 90 and 95 under which \<^verbatim>\<open>clientLogin\<close> returns at once.\<close>

definition bypass :: "Env \<Rightarrow> Player \<Rightarrow> WaitListInfo \<Rightarrow> bool" where
  "bypass env player info \<longleftrightarrow>
     hasFlag_CanAlwaysLogin player \<or> ACCOUNT_TYPE_GAMEMASTER env \<le> getAccountType player \<or>
     MAX_PLAYERS env = 0 \<or> (waitList info = [] \<and> getPlayersOnline env < ucast (MAX_PLAYERS env))"

text \<open>
  Players and surroundings for the concrete runs below: an account of the lowest tier
  without the flag, with or without premium time, and a server whose game master tier
  is 4.
\<close>

definition standard_player :: "32 word \<Rightarrow> Player" where
  "standard_player guid =
     \<lparr>hasFlag_CanAlwaysLogin = False, getAccountType = 1, isPremium = False, getGUID = guid\<rparr>"

definition premium_player :: "32 word \<Rightarrow> Player" where
  "premium_player guid =
     \<lparr>hasFlag_CanAlwaysLogin = False, getAccountType = 1, isPremium = True, getGUID = guid\<rparr>"

definition server :: "32 word \<Rightarrow> 64 word \<Rightarrow> 64 word \<Rightarrow> Env" where
  "server maxPlayers online time =
     \<lparr>MAX_PLAYERS = maxPlayers, getPlayersOnline = online, OTSYS_TIME = time,
      ACCOUNT_TYPE_GAMEMASTER = 4\<rparr>"

text \<open>An iterator to a node is kept as a position inside the list.\<close>

definition priorityEnd_valid :: "WaitListInfo \<Rightarrow> bool" where
  "priorityEnd_valid info =
     (case priorityEnd info of Node i \<Rightarrow> i < length (waitList info) | _ \<Rightarrow> True)"

section \<open>Auxiliary facts\<close>

lemmas example_defs = standard_player_def premium_player_def server_def WaitingList_def

lemmas run_defs = clientLogin_def purge_loop.simps erase_def erase_iterator_def findClient_def
  getClientSlot_def getTimeout_def getTime_def distance_begin_def emplace_def

subsection \<open>The purge loop and the lookup\<close>

text \<open>The test of line 103, read on unsigned numbers, is an equality.\<close>

lemma expired_iff: "(x - t \<le> (0::64 word)) = (x = t)"
  by simp

lemma purge_loop_waitList:
  "waitList (purge_loop time i info) =
     take i (waitList info) @ filter (\<lambda>w. timeout w \<noteq> time) (drop i (waitList info))"
proof (induction time i info rule: purge_loop.induct)
  case (1 time i info)
  show ?case
  proof (cases "i < length (waitList info)")
    case False
    then show ?thesis by (subst purge_loop.simps) simp
  next
    case inb: True
    then have dr: "drop i (waitList info) = waitList info ! i # drop (Suc i) (waitList info)"
      by (simp add: Cons_nth_drop_Suc)
    show ?thesis
    proof (cases "timeout (waitList info ! i) - time \<le> 0")
      case True
      then have eq: "timeout (waitList info ! i) = time" by simp
      have "waitList (purge_loop time i info) = waitList (purge_loop time i (erase i info))"
        using inb True by (subst purge_loop.simps) simp
      also have "\<dots> = take i (waitList (erase i info)) @
          filter (\<lambda>w. timeout w \<noteq> time) (drop i (waitList (erase i info)))"
        using "1.IH"(1) [OF inb True] .
      also have "\<dots> = take i (waitList info) @
          filter (\<lambda>w. timeout w \<noteq> time) (drop (Suc i) (waitList info))"
        using inb by (simp add: erase_def min_def)
      finally show ?thesis using eq dr by simp
    next
      case False
      then have neq: "timeout (waitList info ! i) \<noteq> time" by simp
      have "waitList (purge_loop time i info) = waitList (purge_loop time (Suc i) info)"
        using inb False by (subst purge_loop.simps) simp
      also have "\<dots> = take (Suc i) (waitList info) @
          filter (\<lambda>w. timeout w \<noteq> time) (drop (Suc i) (waitList info))"
        using "1.IH"(2) [OF inb False] .
      finally show ?thesis using neq dr inb by (simp add: take_Suc_conv_app_nth)
    qed
  qed
qed

lemma purge_pass_waitList:
  "waitList (purge_loop time 0 info) = filter (\<lambda>w. timeout w \<noteq> time) (waitList info)"
  by (simp add: purge_loop_waitList)

lemma findClient_loop_End:
  "(fst (findClient_loop guid ws pos slot) = End) = (guid \<notin> playerGUID ` set ws)"
  by (induction ws arbitrary: pos slot) auto

lemma findClient_loop_not_Dangling:
  "fst (findClient_loop guid ws pos slot) \<noteq> Dangling"
  by (induction ws arbitrary: pos slot) auto

lemma findClient_loop_Node:
  "findClient_loop guid ws pos slot = (Node i, s) \<Longrightarrow>
     \<exists>k<length ws. i = pos + k \<and> s = slot + k \<and> playerGUID (ws ! k) = guid \<and>
        (\<forall>j<k. playerGUID (ws ! j) \<noteq> guid)"
proof (induction ws arbitrary: pos slot)
  case Nil
  then show ?case by simp
next
  case (Cons w ws)
  show ?case
  proof (cases "playerGUID w = guid")
    case True
    with Cons.prems have "i = pos" "s = slot" by simp_all
    with True show ?thesis by (intro exI [of _ 0]) simp
  next
    case False
    with Cons.prems have "findClient_loop guid ws (Suc pos) (Suc slot) = (Node i, s)" by simp
    from Cons.IH [OF this] obtain k where k: "k < length ws" "i = Suc pos + k" "s = Suc slot + k"
      "playerGUID (ws ! k) = guid" "\<forall>j<k. playerGUID (ws ! j) \<noteq> guid" by blast
    have "\<forall>j<Suc k. playerGUID ((w # ws) ! j) \<noteq> guid"
      using False k(5) by (auto simp: less_Suc_eq_0_disj)
    with k show ?thesis by (intro exI [of _ "Suc k"]) simp
  qed
qed

lemma findClient_cases:
  obtains (absent) s where "findClient info player = (End, s)"
      "getGUID player \<notin> playerGUID ` set (waitList info)"
  | (present) i where "findClient info player = (Node i, Suc i)" "i < length (waitList info)"
      "playerGUID (waitList info ! i) = getGUID player"
      "\<forall>j<i. playerGUID (waitList info ! j) \<noteq> getGUID player"
proof (cases "findClient info player")
  case (Pair it s)
  show ?thesis
  proof (cases it)
    case End
    with Pair have "getGUID player \<notin> playerGUID ` set (waitList info)"
      using findClient_loop_End [of "getGUID player" "waitList info" 0 1]
      by (simp add: findClient_def)
    with Pair End show ?thesis by (intro absent [of s]) simp_all
  next
    case (Node i)
    with Pair have "findClient_loop (getGUID player) (waitList info) 0 1 = (Node i, s)"
      by (simp add: findClient_def)
    from findClient_loop_Node [OF this] have "i < length (waitList info)" "s = Suc i"
      "playerGUID (waitList info ! i) = getGUID player"
      "\<forall>j<i. playerGUID (waitList info ! j) \<noteq> getGUID player"
      by auto
    with Pair Node show ?thesis by (intro present [of i]) simp_all
  next
    case Dangling
    with Pair show ?thesis
      using findClient_loop_not_Dangling [of "getGUID player" "waitList info" 0 1]
      by (simp add: findClient_def)
  qed
qed

subsection \<open>Player identifiers along a call\<close>

lemma distinct_guids_purge:
  "distinct (guids info) \<Longrightarrow> distinct (guids (purge_loop time 0 info))"
  by (simp add: guids_def purge_pass_waitList distinct_map_filter)

lemma guids_erase:
  "guids (erase i info) = take i (guids info) @ drop (Suc i) (guids info)"
  by (simp add: guids_def erase_def take_map drop_map)

lemma distinct_take_drop:
  "distinct xs \<Longrightarrow> i \<le> j \<Longrightarrow> distinct (take i xs @ drop j xs)"
  using set_take_disj_set_drop_if_distinct [of xs i j] by simp

lemma notin_take_drop_Suc:
  "distinct xs \<Longrightarrow> i < length xs \<Longrightarrow> xs ! i \<notin> set (take i xs @ drop (Suc i) xs)"
proof -
  assume d: "distinct xs" and i: "i < length xs"
  have "xs = take i xs @ xs ! i # drop (Suc i) xs"
    using i by (simp add: id_take_nth_drop [symmetric])
  then have "distinct (take i xs @ xs ! i # drop (Suc i) xs)" using d by simp
  then show ?thesis by auto
qed

lemma guids_refresh:
  "guids (info\<lparr>waitList := (waitList info)[i := (waitList info ! i)\<lparr>timeout := t\<rparr>]\<rparr>) = guids info"
proof (cases "i < length (waitList info)")
  case True
  then show ?thesis by (simp add: guids_def map_update list_update_same_conv)
next
  case False
  then show ?thesis by (simp add: guids_def list_update_beyond)
qed

lemma guids_emplace:
  "map playerGUID (emplace k w ws) = take k (map playerGUID ws) @ playerGUID w # drop k (map playerGUID ws)"
  by (simp add: emplace_def take_map drop_map)

lemma distinct_insert_at:
  "distinct xs \<Longrightarrow> x \<notin> set xs \<Longrightarrow> distinct (take k xs @ x # drop k xs)"
  using set_take_disj_set_drop_if_distinct [of xs k k]
  by (auto dest: in_set_takeD in_set_dropD)

lemma clientLogin_bypass:
  "bypass env player info \<Longrightarrow> clientLogin env player info = Inr (True, info)"
  by (auto simp: bypass_def clientLogin_def)

lemma clientLogin_found:
  assumes "\<not> bypass env player info"
    and "findClient (purge_loop (OTSYS_TIME env) 0 info) player = (Node i, s)"
  shows "clientLogin env player info =
     (if getPlayersOnline env + of_nat s \<le> ucast (MAX_PLAYERS env)
      then Inr (True, erase i (purge_loop (OTSYS_TIME env) 0 info))
      else Inr (False, (purge_loop (OTSYS_TIME env) 0 info)
             \<lparr>waitList := (waitList (purge_loop (OTSYS_TIME env) 0 info))
                [i := (waitList (purge_loop (OTSYS_TIME env) 0 info) ! i)
                   \<lparr>timeout := OTSYS_TIME env + of_nat (getTimeout s * 1000)\<rparr>]\<rparr>))"
  using assms by (auto simp: bypass_def clientLogin_def Let_def)

lemma clientLogin_absent_standard:
  assumes "\<not> bypass env player info"
    and "findClient (purge_loop (OTSYS_TIME env) 0 info) player = (End, s)"
    and "\<not> isPremium player"
  shows "clientLogin env player info =
     Inr (False, (purge_loop (OTSYS_TIME env) 0 info)
        \<lparr>waitList := waitList (purge_loop (OTSYS_TIME env) 0 info) @
           [\<lparr>timeout = OTSYS_TIME env +
               of_nat (getTimeout (length (waitList (purge_loop (OTSYS_TIME env) 0 info)) + 1) * 1000),
             playerGUID = getGUID player\<rparr>]\<rparr>)"
  using assms by (auto simp: bypass_def clientLogin_def Let_def)

lemma clientLogin_absent_premium:
  assumes "\<not> bypass env player info"
    and "findClient (purge_loop (OTSYS_TIME env) 0 info) player = (End, s)"
    and "isPremium player"
  shows "clientLogin env player info =
     (case distance_begin (purge_loop (OTSYS_TIME env) 0 info)
             (priorityEnd (purge_loop (OTSYS_TIME env) 0 info)) of
        Inl e \<Rightarrow> Inl e
      | Inr slot \<Rightarrow>
          Inr (False,
            \<lparr>waitList = emplace slot
               \<lparr>timeout = OTSYS_TIME env + of_nat (getTimeout (slot + 1) * 1000),
                playerGUID = getGUID player\<rparr> (waitList (purge_loop (OTSYS_TIME env) 0 info)),
             priorityEnd = Node slot\<rparr>))"
  using assms by (auto simp: bypass_def clientLogin_def Let_def)

lemma clientLogin_guids:
  assumes "clientLogin env player info = Inr (admit, info')"
  obtains (bypassed) "bypass env player info" "admit" "info' = info"
  | (admitted) i where "\<not> bypass env player info" "admit" "i < length (guids (purged env info))"
      "guids (purged env info) ! i = getGUID player"
      "guids info' = take i (guids (purged env info)) @ drop (Suc i) (guids (purged env info))"
  | (refreshed) i where "\<not> bypass env player info" "\<not> admit"
      "getGUID player \<in> set (guids (purged env info))"
      "guids info' = guids (purged env info)"
      "findClient (purged env info) player = (Node i, Suc i)"
      "i < length (waitList (purged env info))"
      "timeout (waitList info' ! i) = OTSYS_TIME env + of_nat (getTimeout (Suc i) * 1000)"
  | (inserted) k where "\<not> bypass env player info" "\<not> admit"
      "getGUID player \<notin> set (guids (purged env info))"
      "guids info' = take k (guids (purged env info)) @ getGUID player # drop k (guids (purged env info))"
proof (cases "bypass env player info")
  case True
  with assms clientLogin_bypass [OF True] show ?thesis by (intro bypassed) simp_all
next
  case nb: False
  show ?thesis
  proof (cases rule: findClient_cases [of "purged env info" player])
    case (absent s)
    have notin: "getGUID player \<notin> set (guids (purged env info))"
      using absent(2) by (simp add: guids_def)
    show ?thesis
    proof (cases "isPremium player")
      case True
      from assms clientLogin_absent_premium [OF nb absent(1) True]
      obtain k where "\<not> admit" "info' = \<lparr>waitList = emplace k
               \<lparr>timeout = OTSYS_TIME env + of_nat (getTimeout (k + 1) * 1000),
                playerGUID = getGUID player\<rparr> (waitList (purged env info)),
             priorityEnd = Node k\<rparr>"
        by (auto split: sum.splits)
      then have "guids info' =
          take k (guids (purged env info)) @ getGUID player # drop k (guids (purged env info))"
        by (simp add: guids_def guids_emplace)
      with nb \<open>\<not> admit\<close> notin show ?thesis by (intro inserted [of k])
    next
      case False
      from assms clientLogin_absent_standard [OF nb absent(1) False]
      have "\<not> admit" "guids info' = guids (purged env info) @ [getGUID player]"
        by (auto simp: guids_def)
      then have "guids info' = take (length (guids (purged env info))) (guids (purged env info)) @
          getGUID player # drop (length (guids (purged env info))) (guids (purged env info))"
        by simp
      with nb \<open>\<not> admit\<close> notin show ?thesis
        by (intro inserted [of "length (guids (purged env info))"])
    qed
  next
    case (present i)
    have i: "i < length (guids (purged env info))" "guids (purged env info) ! i = getGUID player"
      using present(2,3) by (simp_all add: guids_def)
    show ?thesis
    proof (cases "getPlayersOnline env + of_nat (Suc i) \<le> ucast (MAX_PLAYERS env)")
      case True
      with assms clientLogin_found [OF nb present(1)]
      have "admit" "info' = erase i (purged env info)" by simp_all
      with nb i show ?thesis by (intro admitted [of i]) (simp_all add: guids_erase)
    next
      case False
      with assms clientLogin_found [OF nb present(1)]
      have "\<not> admit" and eq: "info' = (purged env info)
          \<lparr>waitList := (waitList (purged env info))
             [i := (waitList (purged env info) ! i)
                \<lparr>timeout := OTSYS_TIME env + of_nat (getTimeout (Suc i) * 1000)\<rparr>]\<rparr>"
        by simp_all
      have "guids info' = guids (purged env info)"
        unfolding eq by (rule guids_refresh)
      moreover note \<open>\<not> admit\<close>
      moreover have "getGUID player \<in> set (guids (purged env info))"
        using i nth_mem by metis
      moreover have "timeout (waitList info' ! i) =
          OTSYS_TIME env + of_nat (getTimeout (Suc i) * 1000)"
        unfolding eq using present(2) by simp
      ultimately show ?thesis using nb present(1,2) by (intro refreshed [of i])
    qed
  qed
qed

lemma clientLogin_distinct:
  assumes "distinct (guids info)" and "clientLogin env player info = Inr (admit, info')"
  shows "distinct (guids info')"
proof -
  have d1: "distinct (guids (purged env info))"
    using assms(1) by (rule distinct_guids_purge)
  from assms(2) show ?thesis
  proof (cases rule: clientLogin_guids)
    case bypassed
    with assms(1) show ?thesis by simp
  next
    case (admitted i)
    with d1 distinct_take_drop [of "guids (purged env info)" i "Suc i"]
    show ?thesis by simp
  next
    case (refreshed i)
    with d1 show ?thesis by simp
  next
    case (inserted k)
    with d1 show ?thesis using distinct_insert_at by metis
  qed
qed

lemma reachable_distinct: "reachable info \<Longrightarrow> distinct (guids info)"
proof (induction rule: reachable.induct)
  case reachable_init
  show ?case by (simp add: guids_def WaitingList_def)
next
  case (reachable_step info env player admit info')
  then show ?case using clientLogin_distinct by blast
qed

lemma getClientSlot_absent:
  "(fst (getClientSlot player info) = 0) = (getGUID player \<notin> set (guids info))"
proof (cases rule: findClient_cases [of info player])
  case (absent s)
  then show ?thesis by (simp add: getClientSlot_def guids_def)
next
  case (present i)
  from present(2,3) have "getGUID player \<in> set (guids info)"
    unfolding guids_def by (metis length_map nth_map nth_mem)
  with present(1) show ?thesis by (simp add: getClientSlot_def)
qed

subsection \<open>Lookup and counting by identifier\<close>

lemma findClient_loop_cong:
  "map playerGUID ws = map playerGUID ws' \<Longrightarrow>
     findClient_loop guid ws pos slot = findClient_loop guid ws' pos slot"
proof (induction ws arbitrary: ws' pos slot)
  case Nil
  then show ?case by simp
next
  case (Cons w ws)
  then obtain w' ws'' where "ws' = w' # ws''" "playerGUID w = playerGUID w'"
    "map playerGUID ws = map playerGUID ws''"
    by (cases ws') auto
  with Cons.IH show ?case by simp
qed

lemma getClientSlot_cong:
  "guids a = guids b \<Longrightarrow> fst (getClientSlot player a) = fst (getClientSlot player b)"
  using findClient_loop_cong [of "waitList a" "waitList b" "getGUID player" 0 1]
  by (simp add: guids_def getClientSlot_def findClient_def split: prod.splits)

lemma single_entry:
  "distinct (map f xs) \<Longrightarrow> g \<in> f ` set xs \<Longrightarrow> length (filter (\<lambda>w. f w = g) xs) = 1"
proof (induction xs)
  case Nil
  then show ?case by simp
next
  case (Cons x xs)
  show ?case
  proof (cases "f x = g")
    case True
    with Cons.prems(1) have "filter (\<lambda>w. f w = g) xs = []"
      by (auto simp: filter_empty_conv image_iff)
    with True show ?thesis by simp
  next
    case False
    with Cons show ?thesis by auto
  qed
qed

lemma purged_nonempty:
  "waitList (purged env info) \<noteq> [] \<Longrightarrow> waitList info \<noteq> []"
  by (auto simp: purge_pass_waitList)

lemma length_guids: "length (guids info) = length (waitList info)"
  by (simp add: guids_def)

lemma set_guids_purged: "set (guids (purged env info)) \<subseteq> set (guids info)"
  by (auto simp: guids_def purge_pass_waitList)

lemma length_purged: "length (waitList (purged env info)) \<le> length (waitList info)"
  by (simp add: purge_pass_waitList)

subsection \<open>The stored iterator stays inside the list\<close>

lemma erase_valid:
  "i < length (waitList info) \<Longrightarrow> priorityEnd_valid info \<Longrightarrow> priorityEnd_valid (erase i info)"
  by (auto simp: priorityEnd_valid_def erase_def erase_iterator_def split: iterator.splits)

lemma purge_loop_valid:
  "priorityEnd_valid info \<Longrightarrow> priorityEnd_valid (purge_loop time i info)"
proof (induction time i info rule: purge_loop.induct)
  case (1 time i info)
  show ?case
  proof (cases "i < length (waitList info)")
    case False
    with "1.prems" show ?thesis by (subst purge_loop.simps) simp
  next
    case inb: True
    show ?thesis
    proof (cases "timeout (waitList info ! i) - time \<le> 0")
      case True
      from "1.IH"(1) [OF inb True erase_valid [OF inb "1.prems"]] inb True
      show ?thesis by (subst purge_loop.simps) simp
    next
      case False
      from "1.IH"(2) [OF inb False "1.prems"] inb False
      show ?thesis by (subst purge_loop.simps) simp
    qed
  qed
qed

lemma clientLogin_valid:
  assumes "priorityEnd_valid info" and "clientLogin env player info = Inr (admit, info')"
  shows "priorityEnd_valid info'"
proof (cases "bypass env player info")
  case True
  with assms clientLogin_bypass [OF True] show ?thesis by simp
next
  case nb: False
  have v: "priorityEnd_valid (purged env info)"
    using assms(1) by (rule purge_loop_valid)
  show ?thesis
  proof (cases rule: findClient_cases [of "purged env info" player])
    case (absent s)
    show ?thesis
    proof (cases "isPremium player")
      case True
      from assms(2) clientLogin_absent_premium [OF nb absent(1) True] v
      show ?thesis
        by (auto simp: priorityEnd_valid_def distance_begin_def emplace_def
            split: sum.splits iterator.splits)
    next
      case False
      from assms(2) clientLogin_absent_standard [OF nb absent(1) False] v
      show ?thesis
        by (auto simp: priorityEnd_valid_def split: iterator.splits)
    qed
  next
    case (present i)
    from assms(2) clientLogin_found [OF nb present(1)] v erase_valid [OF present(2) v]
    show ?thesis
      by (auto simp: priorityEnd_valid_def split: if_splits iterator.splits)
  qed
qed

lemma reachable_valid: "reachable info \<Longrightarrow> priorityEnd_valid info"
proof (induction rule: reachable.induct)
  case reachable_init
  show ?case by (simp add: priorityEnd_valid_def WaitingList_def)
next
  case (reachable_step info env player admit info')
  then show ?case using clientLogin_valid by blast
qed

subsection \<open>The sum of line 113\<close>

lemma unat_ucast_32_64: "unat (ucast (m :: 32 word) :: 64 word) = unat m"
proof -
  have "unat m < 2 ^ 32" using unsigned_less [of m] by simp
  then have "unat m < 2 ^ 64" by simp
  then show ?thesis by (simp add: unsigned_ucast_eq take_bit_nat_eq_self)
qed

lemma size_t_sum_le:
  assumes "unat (a :: 64 word) + s < 2 ^ 64"
  shows "(a + of_nat s \<le> (ucast (m :: 32 word) :: 64 word)) = (unat a + s \<le> unat m)"
proof -
  from assms have s: "s < 2 ^ 64" by simp
  then have us: "unat (of_nat s :: 64 word) = s"
    by (simp add: unat_of_nat)
  with assms have "unat (a + of_nat s) = unat a + s"
    using unat_add_lem [of a "of_nat s"] by simp
  then show ?thesis by (simp add: word_le_nat_alt unat_ucast_32_64)
qed

section \<open>The timeout policy\<close>

text \<open>
  Claim C5. For every slot, \<^verbatim>\<open>getTime\<close> is 5 on the slots 1 to 4, 10 on 5 to 9, 20 on 10 to
  19, 60 on 20 to 49 and 120 from 50 on; it never decreases when the slot grows; and
  \<^verbatim>\<open>getTimeout\<close> is \<^verbatim>\<open>getTime\<close> plus 15.
\<close>

theorem getTime_steps:
  "(1 \<le> slot \<and> slot \<le> 4 \<longrightarrow> getTime slot = 5) \<and>
   (5 \<le> slot \<and> slot \<le> 9 \<longrightarrow> getTime slot = 10) \<and>
   (10 \<le> slot \<and> slot \<le> 19 \<longrightarrow> getTime slot = 20) \<and>
   (20 \<le> slot \<and> slot \<le> 49 \<longrightarrow> getTime slot = 60) \<and>
   (50 \<le> slot \<longrightarrow> getTime slot = 120) \<and>
   (slot \<le> slot' \<longrightarrow> getTime slot \<le> getTime slot') \<and>
   getTimeout slot = getTime slot + 15"
  by (simp add: getTime_def getTimeout_def)

theorem getTime_steps_witness:
  "getTime 1 = 5 \<and> getTime 4 = 5 \<and> getTime 5 = 10 \<and> getTime 9 = 10 \<and> getTime 10 = 20 \<and>
   getTime 19 = 20 \<and> getTime 20 = 60 \<and> getTime 49 = 60 \<and> getTime 50 = 120 \<and>
   getTime 4 \<le> getTime 5 \<and> getTimeout 1 = 20 \<and> getTimeout 50 = 135"
  using getTime_steps [of 1 4] getTime_steps [of 4 5] getTime_steps [of 5 9]
    getTime_steps [of 9 10] getTime_steps [of 10 19] getTime_steps [of 19 20]
    getTime_steps [of 20 49] getTime_steps [of 49 50] getTime_steps [of 50 50]
  by simp

section \<open>No limit configured\<close>

text \<open>
  Claim C7. When the configured maximum is 0, \<^verbatim>\<open>clientLogin\<close> returns true for every
  player, whatever the waiting list holds and however many players are online; the waiting
  list is left as it was.
\<close>

theorem clientLogin_unlimited:
  "MAX_PLAYERS env = 0 \<Longrightarrow> clientLogin env player info = Inr (True, info)"
  by (simp add: clientLogin_def)

theorem clientLogin_unlimited_witness:
  "MAX_PLAYERS (server 0 7 50000) = 0 \<and>
   clientLogin (server 0 7 50000) (standard_player 2)
     \<lparr>waitList = [\<lparr>timeout = 21000, playerGUID = 1\<rparr>], priorityEnd = End\<rparr> =
   Inr (True, \<lparr>waitList = [\<lparr>timeout = 21000, playerGUID = 1\<rparr>], priorityEnd = End\<rparr>)"
  using clientLogin_unlimited [of "server 0 7 50000" "standard_player 2"
      "\<lparr>waitList = [\<lparr>timeout = 21000, playerGUID = 1\<rparr>], priorityEnd = End\<rparr>"]
  by (simp add: server_def)

section \<open>The slot query\<close>

text \<open>
  Claim C9. \<^verbatim>\<open>getClientSlot\<close> leaves the whole state as it found it: the entries, their
  order, their timeouts and \<^verbatim>\<open>priorityEnd\<close>. This holds for every state, so also for one
  with entries whose timeout has passed: nothing is purged.
\<close>

theorem getClientSlot_frame:
  "snd (getClientSlot player info) = info"
  by (simp add: getClientSlot_def split: prod.splits)

text \<open>
  Claim C8. \<^verbatim>\<open>getClientSlot\<close> returns 0 exactly when no entry of the waiting list carries
  the identifier of the player. Otherwise it returns the position, counted from 1 at the
  front of the whole list, of the first entry that carries it, and this is the slot that
  \<^verbatim>\<open>findClient\<close> computes on that state.
\<close>

theorem getClientSlot_position:
  "(fst (getClientSlot player info) = 0) = (getGUID player \<notin> playerGUID ` set (waitList info)) \<and>
   (getGUID player \<in> playerGUID ` set (waitList info) \<longrightarrow>
      (let slot = fst (getClientSlot player info) in
         1 \<le> slot \<and> slot \<le> length (waitList info) \<and>
         playerGUID (waitList info ! (slot - 1)) = getGUID player \<and>
         (\<forall>j < slot - 1. playerGUID (waitList info ! j) \<noteq> getGUID player) \<and>
         findClient info player = (Node (slot - 1), slot)))"
proof (cases rule: findClient_cases [of info player])
  case (absent s)
  then show ?thesis by (simp add: getClientSlot_def)
next
  case (present i)
  from present(2,3) have "getGUID player \<in> playerGUID ` set (waitList info)"
    by (metis image_eqI nth_mem)
  moreover from present(1) have "fst (getClientSlot player info) = Suc i"
    by (simp add: getClientSlot_def)
  ultimately show ?thesis using present by (simp add: Let_def)
qed

theorem getClientSlot_position_witness:
  "fst (getClientSlot (standard_player 3)
      \<lparr>waitList = [\<lparr>timeout = 21000, playerGUID = 1\<rparr>, \<lparr>timeout = 22000, playerGUID = 2\<rparr>],
       priorityEnd = End\<rparr>) = 0 \<and>
   fst (getClientSlot (standard_player 2)
      \<lparr>waitList = [\<lparr>timeout = 21000, playerGUID = 1\<rparr>, \<lparr>timeout = 22000, playerGUID = 2\<rparr>],
       priorityEnd = End\<rparr>) = 2 \<and>
   findClient
      \<lparr>waitList = [\<lparr>timeout = 21000, playerGUID = 1\<rparr>, \<lparr>timeout = 22000, playerGUID = 2\<rparr>],
       priorityEnd = End\<rparr> (standard_player 2) = (Node 1, 2)"
  using getClientSlot_position [of "standard_player 3"
      "\<lparr>waitList = [\<lparr>timeout = 21000, playerGUID = 1\<rparr>, \<lparr>timeout = 22000, playerGUID = 2\<rparr>],
        priorityEnd = End\<rparr>"]
    getClientSlot_position [of "standard_player 2"
      "\<lparr>waitList = [\<lparr>timeout = 21000, playerGUID = 1\<rparr>, \<lparr>timeout = 22000, playerGUID = 2\<rparr>],
        priorityEnd = End\<rparr>"]
  by (simp add: standard_player_def getClientSlot_def findClient_def)
section \<open>The purge loop\<close>

text \<open>
  Claim C1. The purge loop of \<^verbatim>\<open>clientLogin\<close> is to remove exactly the entries whose
  timeout has passed, whoever calls. The run below evaluates the source: player 1 is
  queued at time 1000 with the timeout 21000; at time 50000, well after that timeout,
  player 2 calls and is queued, and the entry of player 1 is still in the waiting list.
  By \<open>purge_pass_waitList\<close> the loop removes the entries whose timeout equals the
  current time and no other.
\<close>

theorem purge_keeps_elapsed_entry:
  "clientLogin (server 1 1 1000) (standard_player 1) WaitingList =
     Inr (False, \<lparr>waitList = [\<lparr>timeout = 21000, playerGUID = 1\<rparr>], priorityEnd = End\<rparr>) \<and>
   (21000 :: 64 word) < 50000 \<and>
   clientLogin (server 1 1 50000) (standard_player 2)
     \<lparr>waitList = [\<lparr>timeout = 21000, playerGUID = 1\<rparr>], priorityEnd = End\<rparr> =
     Inr (False, \<lparr>waitList = [\<lparr>timeout = 21000, playerGUID = 1\<rparr>,
                               \<lparr>timeout = 70000, playerGUID = 2\<rparr>], priorityEnd = End\<rparr>)"
  by (simp add: run_defs example_defs)

section \<open>Order of the waiting list\<close>

text \<open>
  Claim C2. After any sequence of insertions every premium entry is to stand before every
  standard entry, and the entries of each kind in their order of arrival. The run below
  evaluates the source on a standard player 1, then a premium player 2, then a premium
  player 3: the waiting list ends as 1, 3, 2, the standard entry first and the premium
  entries in reverse order of arrival.
\<close>

theorem premium_entry_behind_standard_entry:
  "clientLogin (server 1 1 1000) (standard_player 1) WaitingList =
     Inr (False, \<lparr>waitList = [\<lparr>timeout = 21000, playerGUID = 1\<rparr>], priorityEnd = End\<rparr>) \<and>
   clientLogin (server 1 1 2000) (premium_player 2)
     \<lparr>waitList = [\<lparr>timeout = 21000, playerGUID = 1\<rparr>], priorityEnd = End\<rparr> =
     Inr (False, \<lparr>waitList = [\<lparr>timeout = 21000, playerGUID = 1\<rparr>,
                               \<lparr>timeout = 22000, playerGUID = 2\<rparr>], priorityEnd = Node 1\<rparr>) \<and>
   clientLogin (server 1 1 3000) (premium_player 3)
     \<lparr>waitList = [\<lparr>timeout = 21000, playerGUID = 1\<rparr>,
                  \<lparr>timeout = 22000, playerGUID = 2\<rparr>], priorityEnd = Node 1\<rparr> =
     Inr (False, \<lparr>waitList = [\<lparr>timeout = 21000, playerGUID = 1\<rparr>,
                               \<lparr>timeout = 23000, playerGUID = 3\<rparr>,
                               \<lparr>timeout = 22000, playerGUID = 2\<rparr>], priorityEnd = Node 1\<rparr>)"
  by (simp add: run_defs example_defs)

text \<open>
  Claim C3. With two players allowed and two online, a standard player A (identifier 1) is
  refused and queued at slot 1 with the timeout of 20000 ms after the current time; a
  premium player B (identifier 2) is refused next. The claim puts B before A. The run
  below evaluates the source: B is queued behind A, \<^verbatim>\<open>getClientSlot\<close> returns 1 for A and
  2 for B.
\<close>

theorem scenario_premium_after_standard:
  "clientLogin (server 2 2 1000) (standard_player 1) WaitingList =
     Inr (False, \<lparr>waitList = [\<lparr>timeout = 1000 + 20000, playerGUID = 1\<rparr>], priorityEnd = End\<rparr>) \<and>
   fst (getClientSlot (standard_player 1)
     \<lparr>waitList = [\<lparr>timeout = 1000 + 20000, playerGUID = 1\<rparr>], priorityEnd = End\<rparr>) = 1 \<and>
   clientLogin (server 2 2 1000) (premium_player 2)
     \<lparr>waitList = [\<lparr>timeout = 1000 + 20000, playerGUID = 1\<rparr>], priorityEnd = End\<rparr> =
     Inr (False, \<lparr>waitList = [\<lparr>timeout = 21000, playerGUID = 1\<rparr>,
                               \<lparr>timeout = 21000, playerGUID = 2\<rparr>], priorityEnd = Node 1\<rparr>) \<and>
   fst (getClientSlot (premium_player 2)
     \<lparr>waitList = [\<lparr>timeout = 21000, playerGUID = 1\<rparr>,
                  \<lparr>timeout = 21000, playerGUID = 2\<rparr>], priorityEnd = Node 1\<rparr>) = 2 \<and>
   fst (getClientSlot (standard_player 1)
     \<lparr>waitList = [\<lparr>timeout = 21000, playerGUID = 1\<rparr>,
                  \<lparr>timeout = 21000, playerGUID = 2\<rparr>], priorityEnd = Node 1\<rparr>) = 1"
  by (simp add: run_defs example_defs)

section \<open>A player who is already queued\<close>

text \<open>
  Claim C6, as amended. Let the player hold an entry at slot \<open>s\<close> after the purge loop.
  A call of \<^verbatim>\<open>clientLogin\<close> that is let through by the flag, the game master tier or a
  maximum of 0 returns true and leaves the waiting list as it was. On every other call:
  if the number of players online plus \<open>s\<close>, the sum taken in \<^verbatim>\<open>std::size_t\<close> as line
  113 takes it, is at most the maximum, the call returns true and the state it leaves is
  the purged one with that entry erased; otherwise it returns false, the entry has the
  timeout of the current time plus \<^verbatim>\<open>getTimeout(s) * 1000\<close>, every other entry and
  \<^verbatim>\<open>priorityEnd\<close> are as after the loop, and the player is still at slot \<open>s\<close>. The sum of
  line 113 is the sum of the two numbers whenever that is below \<open>2 ^ 64\<close>.
\<close>

theorem clientLogin_queued_player:
  assumes "fst (getClientSlot player (purged env info)) = s" and "s \<noteq> 0"
  shows "(if hasFlag_CanAlwaysLogin player \<or>
          ACCOUNT_TYPE_GAMEMASTER env \<le> getAccountType player \<or> MAX_PLAYERS env = 0
     then clientLogin env player info = Inr (True, info)
     else if getPlayersOnline env + of_nat s \<le> ucast (MAX_PLAYERS env)
     then clientLogin env player info = Inr (True, erase (s - 1) (purged env info)) \<and>
       waitList (erase (s - 1) (purged env info)) =
         take (s - 1) (waitList (purged env info)) @ drop s (waitList (purged env info))
     else (case clientLogin env player info of
         Inr (False, info') \<Rightarrow>
           length (waitList info') = length (waitList (purged env info)) \<and>
           timeout (waitList info' ! (s - 1)) = OTSYS_TIME env + of_nat (getTimeout s * 1000) \<and>
           playerGUID (waitList info' ! (s - 1)) = getGUID player \<and>
           take (s - 1) (waitList info') = take (s - 1) (waitList (purged env info)) \<and>
           drop s (waitList info') = drop s (waitList (purged env info)) \<and>
           priorityEnd info' = priorityEnd (purged env info) \<and>
           fst (getClientSlot player info') = s
       | _ \<Rightarrow> False)) \<and>
    (unat (getPlayersOnline env) + s < 2 ^ 64 \<longrightarrow>
       (getPlayersOnline env + of_nat s \<le> ucast (MAX_PLAYERS env)) =
       (unat (getPlayersOnline env) + s \<le> unat (MAX_PLAYERS env)))"
proof (intro conjI impI)
  assume "unat (getPlayersOnline env) + s < 2 ^ 64"
  then show "(getPlayersOnline env + of_nat s \<le> ucast (MAX_PLAYERS env)) =
      (unat (getPlayersOnline env) + s \<le> unat (MAX_PLAYERS env))"
    by (rule size_t_sum_le)
next
  let ?through = "hasFlag_CanAlwaysLogin player \<or>
      ACCOUNT_TYPE_GAMEMASTER env \<le> getAccountType player \<or> MAX_PLAYERS env = 0"
  let ?body = "if getPlayersOnline env + of_nat s \<le> ucast (MAX_PLAYERS env)
     then clientLogin env player info = Inr (True, erase (s - 1) (purged env info)) \<and>
       waitList (erase (s - 1) (purged env info)) =
         take (s - 1) (waitList (purged env info)) @ drop s (waitList (purged env info))
     else (case clientLogin env player info of
         Inr (False, info') \<Rightarrow>
           length (waitList info') = length (waitList (purged env info)) \<and>
           timeout (waitList info' ! (s - 1)) = OTSYS_TIME env + of_nat (getTimeout s * 1000) \<and>
           playerGUID (waitList info' ! (s - 1)) = getGUID player \<and>
           take (s - 1) (waitList info') = take (s - 1) (waitList (purged env info)) \<and>
           drop s (waitList info') = drop s (waitList (purged env info)) \<and>
           priorityEnd info' = priorityEnd (purged env info) \<and>
           fst (getClientSlot player info') = s
       | _ \<Rightarrow> False)"
  have body: "?body" if nt: "\<not> ?through"
  proof (cases rule: findClient_cases [of "purged env info" player])
    case (absent s')
    with assms show ?thesis by (simp add: getClientSlot_def)
  next
    case (present i)
    with assms(1) have s: "s = Suc i" by (simp add: getClientSlot_def)
    from present(2) have "waitList (purged env info) \<noteq> []" by auto
    then have "waitList info \<noteq> []" by (rule purged_nonempty)
    with nt have nb: "\<not> bypass env player info" by (simp add: bypass_def)
    note found = clientLogin_found [OF nb present(1)]
    show ?thesis
    proof (cases "getPlayersOnline env + of_nat s \<le> ucast (MAX_PLAYERS env)")
      case True
      with found s show ?thesis by (simp add: erase_def)
    next
      case False
      define info' where "info' = (purged env info)
          \<lparr>waitList := (waitList (purged env info))
             [i := (waitList (purged env info) ! i)
                \<lparr>timeout := OTSYS_TIME env + of_nat (getTimeout (Suc i) * 1000)\<rparr>]\<rparr>"
      from False found s have res: "clientLogin env player info = Inr (False, info')"
        by (simp add: info'_def)
      have "guids info' = guids (purged env info)"
        unfolding info'_def by (rule guids_refresh)
      then have "fst (getClientSlot player info') = s"
        using assms(1) getClientSlot_cong by metis
      moreover have "length (waitList info') = length (waitList (purged env info))"
        "timeout (waitList info' ! i) = OTSYS_TIME env + of_nat (getTimeout (Suc i) * 1000)"
        "playerGUID (waitList info' ! i) = getGUID player"
        "take i (waitList info') = take i (waitList (purged env info))"
        "drop (Suc i) (waitList info') = drop (Suc i) (waitList (purged env info))"
        "priorityEnd info' = priorityEnd (purged env info)"
        using present(2,3) by (simp_all add: info'_def)
      ultimately show ?thesis using False res s by simp
    qed
  qed
  have through: "clientLogin env player info = Inr (True, info)" if "?through"
    using that by (intro clientLogin_bypass) (auto simp: bypass_def)
  show "if ?through then clientLogin env player info = Inr (True, info) else ?body"
  proof (cases "?through")
    case True
    from through [OF True] show ?thesis by (simp only: True if_True)
  next
    case False
    from body [OF False] show ?thesis by (simp only: False if_False)
  qed
qed

theorem clientLogin_queued_player_witness:
  "fst (getClientSlot (standard_player 1) (purged (server 2 1 5000)
      \<lparr>waitList = [\<lparr>timeout = 21000, playerGUID = 1\<rparr>], priorityEnd = End\<rparr>)) = 1 \<and>
   clientLogin (server 2 1 5000) (standard_player 1)
      \<lparr>waitList = [\<lparr>timeout = 21000, playerGUID = 1\<rparr>], priorityEnd = End\<rparr> =
      Inr (True, \<lparr>waitList = [], priorityEnd = End\<rparr>) \<and>
   fst (getClientSlot (standard_player 1) (purged (server 2 2 5000)
      \<lparr>waitList = [\<lparr>timeout = 21000, playerGUID = 1\<rparr>], priorityEnd = End\<rparr>)) = 1 \<and>
   clientLogin (server 2 2 5000) (standard_player 1)
      \<lparr>waitList = [\<lparr>timeout = 21000, playerGUID = 1\<rparr>], priorityEnd = End\<rparr> =
      Inr (False, \<lparr>waitList = [\<lparr>timeout = 25000, playerGUID = 1\<rparr>], priorityEnd = End\<rparr>)"
  using clientLogin_queued_player [of "standard_player 1" "server 2 1 5000"
      "\<lparr>waitList = [\<lparr>timeout = 21000, playerGUID = 1\<rparr>], priorityEnd = End\<rparr>" 1]
    clientLogin_queued_player [of "standard_player 1" "server 2 2 5000"
      "\<lparr>waitList = [\<lparr>timeout = 21000, playerGUID = 1\<rparr>], priorityEnd = End\<rparr>" 1]
  by (simp add: run_defs example_defs)

text \<open>
  The claim without the amendment fails on each of the following calls, made in a
  reachable state in which player 1 holds the entry at slot 1. With a maximum of 0 and one
  player online the sum exceeds the maximum, and the call returns true at line 96 instead
  of refusing. A game master with the identifier 1 calls while the sum is within the
  maximum: the call returns true at line 91 and the entry is not removed. With
  \<open>2 ^ 64 - 1\<close> players online and a maximum of 1 the sum exceeds the maximum, the sum of
  line 113 wraps to 0, and the call returns true.
\<close>

theorem queued_player_let_through_counterexample:
  "reachable \<lparr>waitList = [\<lparr>timeout = 21000, playerGUID = 1\<rparr>], priorityEnd = End\<rparr> \<and>
   fst (getClientSlot (standard_player 1) (purged (server 0 1 2000)
      \<lparr>waitList = [\<lparr>timeout = 21000, playerGUID = 1\<rparr>], priorityEnd = End\<rparr>)) = 1 \<and>
   \<not> unat (getPlayersOnline (server 0 1 2000)) + 1 \<le> unat (MAX_PLAYERS (server 0 1 2000)) \<and>
   clientLogin (server 0 1 2000) (standard_player 1)
      \<lparr>waitList = [\<lparr>timeout = 21000, playerGUID = 1\<rparr>], priorityEnd = End\<rparr> =
      Inr (True, \<lparr>waitList = [\<lparr>timeout = 21000, playerGUID = 1\<rparr>], priorityEnd = End\<rparr>) \<and>
   fst (getClientSlot
      \<lparr>hasFlag_CanAlwaysLogin = False, getAccountType = 4, isPremium = False, getGUID = 1\<rparr>
      (purged (server 2 1 2000)
        \<lparr>waitList = [\<lparr>timeout = 21000, playerGUID = 1\<rparr>], priorityEnd = End\<rparr>)) = 1 \<and>
   unat (getPlayersOnline (server 2 1 2000)) + 1 \<le> unat (MAX_PLAYERS (server 2 1 2000)) \<and>
   clientLogin (server 2 1 2000)
      \<lparr>hasFlag_CanAlwaysLogin = False, getAccountType = 4, isPremium = False, getGUID = 1\<rparr>
      \<lparr>waitList = [\<lparr>timeout = 21000, playerGUID = 1\<rparr>], priorityEnd = End\<rparr> =
      Inr (True, \<lparr>waitList = [\<lparr>timeout = 21000, playerGUID = 1\<rparr>], priorityEnd = End\<rparr>) \<and>
   fst (getClientSlot (standard_player 1) (purged (server 1 18446744073709551615 2000)
      \<lparr>waitList = [\<lparr>timeout = 21000, playerGUID = 1\<rparr>], priorityEnd = End\<rparr>)) = 1 \<and>
   \<not> unat (getPlayersOnline (server 1 18446744073709551615 2000)) + 1 \<le>
      unat (MAX_PLAYERS (server 1 18446744073709551615 2000)) \<and>
   clientLogin (server 1 18446744073709551615 2000) (standard_player 1)
      \<lparr>waitList = [\<lparr>timeout = 21000, playerGUID = 1\<rparr>], priorityEnd = End\<rparr> =
      Inr (True, \<lparr>waitList = [], priorityEnd = End\<rparr>)"
proof -
  have "clientLogin (server 1 1 1000) (standard_player 1) WaitingList =
     Inr (False, \<lparr>waitList = [\<lparr>timeout = 21000, playerGUID = 1\<rparr>], priorityEnd = End\<rparr>)"
    by (simp add: run_defs example_defs)
  from reachable_step [OF reachable_init this]
  show ?thesis by (simp add: run_defs example_defs word_le_nat_alt)
qed

section \<open>Entries of the calling player in reachable states\<close>

text \<open>
  Claim C10. In every reachable state, a call of \<^verbatim>\<open>clientLogin\<close> that returns false
  leaves exactly one entry of the calling player: the entry the player had after the purge
  loop, with no entry added or removed and its timeout set anew from its slot, or else one
  entry more than after the purge loop, carrying the identifier of the player. No returning
  call makes the waiting list longer by more than one entry, and none brings in an
  identifier other than that of the caller.
\<close>

theorem clientLogin_deny_one_entry:
  assumes "reachable info" and "clientLogin env player info = Inr (admit, info')"
  shows "length (waitList info') \<le> Suc (length (waitList info)) \<and>
     set (guids info') \<subseteq> insert (getGUID player) (set (guids info)) \<and>
     (\<not> admit \<longrightarrow>
        length (filter (\<lambda>w. playerGUID w = getGUID player) (waitList info')) = 1 \<and>
        (if getGUID player \<in> set (guids (purged env info))
         then guids info' = guids (purged env info) \<and>
              (let slot = fst (getClientSlot player info')
               in timeout (waitList info' ! (slot - 1)) =
                    OTSYS_TIME env + of_nat (getTimeout slot * 1000))
         else length (waitList info') = Suc (length (waitList (purged env info))) \<and>
              (\<exists>k. guids info' = take k (guids (purged env info)) @ getGUID player #
                      drop k (guids (purged env info)))))"
proof -
  have d: "distinct (guids info')"
    using reachable_distinct [OF reachable_step [OF assms]] .
  have one: "getGUID player \<in> set (guids info') \<Longrightarrow>
      length (filter (\<lambda>w. playerGUID w = getGUID player) (waitList info')) = 1"
    using d single_entry [of playerGUID "waitList info'" "getGUID player"]
    by (simp add: guids_def)
  note len = length_purged [of env info] and sub = set_guids_purged [of env info]
  from assms(2) show ?thesis
  proof (cases rule: clientLogin_guids)
    case bypassed
    then show ?thesis by auto
  next
    case (admitted i)
    from admitted(5) have "length (guids info') \<le> length (guids (purged env info))"
      by simp
    moreover from admitted(5) have "set (guids info') \<subseteq> set (guids (purged env info))"
      by (auto dest: in_set_takeD in_set_dropD)
    ultimately show ?thesis using admitted(2) len sub by (auto simp: length_guids)
  next
    case (refreshed i)
    from refreshed(4) have "length (waitList info') = length (waitList (purged env info))"
      using length_guids by metis
    moreover have "length (filter (\<lambda>w. playerGUID w = getGUID player) (waitList info')) = 1"
      using one refreshed(3,4) by simp
    moreover have "fst (getClientSlot player info') = Suc i"
      using getClientSlot_cong [OF refreshed(4), of player] refreshed(5)
      by (simp add: getClientSlot_def)
    ultimately show ?thesis using refreshed(3,4,7) len sub by (auto simp: Let_def)
  next
    case (inserted k)
    from inserted(4) have "length (guids info') = Suc (length (guids (purged env info)))"
      by simp
    then have l: "length (waitList info') = Suc (length (waitList (purged env info)))"
      by (simp add: length_guids)
    from inserted(4) have s: "set (guids info') \<subseteq>
        insert (getGUID player) (set (guids (purged env info)))"
      by (auto dest: in_set_takeD in_set_dropD)
    from inserted(4) have "getGUID player \<in> set (guids info')" by simp
    then have "length (filter (\<lambda>w. playerGUID w = getGUID player) (waitList info')) = 1"
      by (rule one)
    moreover have "\<exists>k. guids info' = take k (guids (purged env info)) @ getGUID player #
        drop k (guids (purged env info))"
      using inserted(4) by blast
    ultimately show ?thesis using inserted(3) l s len sub by auto
  qed
qed

theorem clientLogin_deny_one_entry_witness:
  "reachable \<lparr>waitList = [\<lparr>timeout = 21000, playerGUID = 1\<rparr>], priorityEnd = End\<rparr> \<and>
   clientLogin (server 1 1 2000) (premium_player 2)
     \<lparr>waitList = [\<lparr>timeout = 21000, playerGUID = 1\<rparr>], priorityEnd = End\<rparr> =
     Inr (False, \<lparr>waitList = [\<lparr>timeout = 21000, playerGUID = 1\<rparr>,
                               \<lparr>timeout = 22000, playerGUID = 2\<rparr>], priorityEnd = Node 1\<rparr>) \<and>
   length (filter (\<lambda>w. playerGUID w = getGUID (premium_player 2))
     [\<lparr>timeout = 21000, playerGUID = 1\<rparr>, \<lparr>timeout = 22000, playerGUID = 2\<rparr>]) = 1"
proof -
  have "clientLogin (server 1 1 1000) (standard_player 1) WaitingList =
     Inr (False, \<lparr>waitList = [\<lparr>timeout = 21000, playerGUID = 1\<rparr>], priorityEnd = End\<rparr>)"
    by (simp add: run_defs example_defs)
  from reachable_step [OF reachable_init this]
  have r: "reachable \<lparr>waitList = [\<lparr>timeout = 21000, playerGUID = 1\<rparr>], priorityEnd = End\<rparr>" .
  have c: "clientLogin (server 1 1 2000) (premium_player 2)
     \<lparr>waitList = [\<lparr>timeout = 21000, playerGUID = 1\<rparr>], priorityEnd = End\<rparr> =
     Inr (False, \<lparr>waitList = [\<lparr>timeout = 21000, playerGUID = 1\<rparr>,
                               \<lparr>timeout = 22000, playerGUID = 2\<rparr>], priorityEnd = Node 1\<rparr>)"
    by (simp add: run_defs example_defs)
  from clientLogin_deny_one_entry [OF r c] r c show ?thesis by simp
qed

text \<open>
  Claim C4, as amended. In every reachable state, when \<^verbatim>\<open>clientLogin\<close> returns true on
  a call that is not let through by the flag, the game master tier or a maximum of 0, the
  player has no entry when the call returns, and \<^verbatim>\<open>getClientSlot\<close> returns 0. A call
  that is let through by one of these three returns true and leaves the waiting list as it
  was, an entry of the player included.
\<close>

theorem clientLogin_admit_no_entry:
  assumes "reachable info" and "clientLogin env player info = Inr (True, info')"
  shows "if hasFlag_CanAlwaysLogin player \<or>
        ACCOUNT_TYPE_GAMEMASTER env \<le> getAccountType player \<or> MAX_PLAYERS env = 0
     then info' = info
     else getGUID player \<notin> playerGUID ` set (waitList info') \<and>
          fst (getClientSlot player info') = 0"
proof -
  have d: "distinct (guids (purged env info))"
    using reachable_distinct [OF assms(1)] by (rule distinct_guids_purge)
  have slot: "getGUID player \<notin> set (guids info') \<Longrightarrow>
      getGUID player \<notin> playerGUID ` set (waitList info') \<and> fst (getClientSlot player info') = 0"
    by (simp add: getClientSlot_absent) (simp add: guids_def)
  from assms(2) show ?thesis
  proof (cases rule: clientLogin_guids)
    case bypassed
    show ?thesis
    proof (cases "hasFlag_CanAlwaysLogin player \<or>
        ACCOUNT_TYPE_GAMEMASTER env \<le> getAccountType player \<or> MAX_PLAYERS env = 0")
      case True
      with bypassed(3) show ?thesis by simp
    next
      case False
      with bypassed(1) have "waitList info = []" by (simp add: bypass_def)
      with bypassed(3) have "getGUID player \<notin> set (guids info')" by (simp add: guids_def)
      with False slot show ?thesis by simp
    qed
  next
    case (admitted i)
    from admitted(1) have nb: "\<not> (hasFlag_CanAlwaysLogin player \<or>
        ACCOUNT_TYPE_GAMEMASTER env \<le> getAccountType player \<or> MAX_PLAYERS env = 0)"
      by (simp add: bypass_def)
    from notin_take_drop_Suc [OF d admitted(3)] admitted(4,5)
    have "getGUID player \<notin> set (guids info')" by simp
    with nb slot show ?thesis by simp
  next
    case (refreshed i)
    then show ?thesis by simp
  next
    case (inserted k)
    then show ?thesis by simp
  qed
qed

theorem clientLogin_admit_no_entry_witness:
  "reachable \<lparr>waitList = [\<lparr>timeout = 21000, playerGUID = 1\<rparr>], priorityEnd = End\<rparr> \<and>
   clientLogin (server 1 0 2000) (standard_player 1)
     \<lparr>waitList = [\<lparr>timeout = 21000, playerGUID = 1\<rparr>], priorityEnd = End\<rparr> =
     Inr (True, \<lparr>waitList = [], priorityEnd = End\<rparr>) \<and>
   fst (getClientSlot (standard_player 1) \<lparr>waitList = [], priorityEnd = End\<rparr>) = 0"
proof -
  have "clientLogin (server 1 1 1000) (standard_player 1) WaitingList =
     Inr (False, \<lparr>waitList = [\<lparr>timeout = 21000, playerGUID = 1\<rparr>], priorityEnd = End\<rparr>)"
    by (simp add: run_defs example_defs)
  from reachable_step [OF reachable_init this]
  have r: "reachable \<lparr>waitList = [\<lparr>timeout = 21000, playerGUID = 1\<rparr>], priorityEnd = End\<rparr>" .
  have c: "clientLogin (server 1 0 2000) (standard_player 1)
     \<lparr>waitList = [\<lparr>timeout = 21000, playerGUID = 1\<rparr>], priorityEnd = End\<rparr> =
     Inr (True, \<lparr>waitList = [], priorityEnd = End\<rparr>)"
    by (simp add: run_defs example_defs)
  from clientLogin_admit_no_entry [OF r c] r c show ?thesis
    by (simp add: example_defs)
qed

text \<open>
  The claim without the amendment fails: player 1 is queued while the maximum is 1, the
  maximum is then read as 0, and the call of player 1 returns true at line 96 with the
  entry still in place.
\<close>

theorem admit_keeps_entry_counterexample:
  "reachable \<lparr>waitList = [\<lparr>timeout = 21000, playerGUID = 1\<rparr>], priorityEnd = End\<rparr> \<and>
   clientLogin (server 0 1 2000) (standard_player 1)
     \<lparr>waitList = [\<lparr>timeout = 21000, playerGUID = 1\<rparr>], priorityEnd = End\<rparr> =
     Inr (True, \<lparr>waitList = [\<lparr>timeout = 21000, playerGUID = 1\<rparr>], priorityEnd = End\<rparr>) \<and>
   fst (getClientSlot (standard_player 1)
     \<lparr>waitList = [\<lparr>timeout = 21000, playerGUID = 1\<rparr>], priorityEnd = End\<rparr>) = 1"
proof -
  have "clientLogin (server 1 1 1000) (standard_player 1) WaitingList =
     Inr (False, \<lparr>waitList = [\<lparr>timeout = 21000, playerGUID = 1\<rparr>], priorityEnd = End\<rparr>)"
    by (simp add: run_defs example_defs)
  from reachable_step [OF reachable_init this]
  show ?thesis by (simp add: run_defs example_defs)
qed

end
